theory Spec2Isabelle
  imports Main "HOL-Library.Word"
begin

section \<open>The EV pooling service of main.go\<close>

text \<open>
  The service keeps three pieces of process memory: the fleet held by
  \<^verbatim>\<open>InMemoryVehicleRepository\<close>, and the waiting queue and the group-to-car table held
  by \<^verbatim>\<open>InMemoryGroupRepository\<close>. Four HTTP handlers mutate them. Each Go method is
  embedded as a function that takes the receiver and returns the updated receiver next
  to the method's own results.

  Go's \<^verbatim>\<open>int\<close> is a 64-bit two's complement integer on the platforms of the
  \<^verbatim>\<open>golang:1.20\<close> image the Dockerfile builds on: arithmetic wraps around without a
  panic, and \<^verbatim>\<open>>=\<close> compares signed values. It is modelled as a 64-bit word,
  compared through \<open>\<le>s\<close> and read as an integer through \<open>sint\<close>.
\<close>

subsection \<open>Data\<close>

type_synonym go_int = "64 word"

record Vehicle =
  ID :: go_int
  Seats :: go_int

record Group =
  ID :: go_int
  People :: go_int

record InMemoryVehicleRepository =
  vehicles :: "Vehicle list"

record InMemoryGroupRepository =
  groupsQueue :: "Group list"
  groupToCar :: "go_int \<rightharpoonup> go_int"

text \<open>The zero value \<^verbatim>\<open>Group{}\<close> that \<^verbatim>\<open>FindGroup\<close> and
  \<^verbatim>\<open>GetNextWaitingGroup\<close> return when they find nothing.\<close>

definition zero_Group :: Group where
  "zero_Group = \<lparr>Group.ID = 0, People = 0\<rparr>"

subsection \<open>InMemoryVehicleRepository\<close>

definition GetAllVehicles :: "InMemoryVehicleRepository \<Rightarrow> Vehicle list" where
  "GetAllVehicles repo = vehicles repo"

definition SaveVehicles ::
  "InMemoryVehicleRepository \<Rightarrow> Vehicle list \<Rightarrow> InMemoryVehicleRepository" where
  "SaveVehicles repo vs = repo\<lparr>vehicles := vs\<rparr>"

text \<open>The loop of \<^verbatim>\<open>UpdateVehicleSeats\<close>: the first vehicle carrying the id gets the
  new seat count and the loop breaks; with no such vehicle nothing changes.\<close>

fun update_seats :: "Vehicle list \<Rightarrow> go_int \<Rightarrow> go_int \<Rightarrow> Vehicle list" where
  "update_seats [] vehicleID seats = []"
| "update_seats (v # vs) vehicleID seats =
     (if Vehicle.ID v = vehicleID then v\<lparr>Seats := seats\<rparr> # vs
      else v # update_seats vs vehicleID seats)"

definition UpdateVehicleSeats ::
  "InMemoryVehicleRepository \<Rightarrow> go_int \<Rightarrow> go_int \<Rightarrow> InMemoryVehicleRepository" where
  "UpdateVehicleSeats repo vehicleID seats =
     repo\<lparr>vehicles := update_seats (vehicles repo) vehicleID seats\<rparr>"

subsection \<open>VehicleService\<close>

text \<open>
  \<^verbatim>\<open>AssignVehicleToGroup\<close> walks the slice \<^verbatim>\<open>GetAllVehicles\<close> returned. At the first
  vehicle with \<^verbatim>\<open>Seats >= group.People\<close> it calls \<^verbatim>\<open>UpdateVehicleSeats\<close> with that
  vehicle's id and \<^verbatim>\<open>Seats - group.People\<close>, and returns the id with \<^verbatim>\<open>true\<close>;
  past the end it returns \<^verbatim>\<open>(0, false)\<close>. The second argument of \<open>assign_loop\<close> is
  the part of the slice still to visit. The event the method emits is handed to
  goroutines that only write a log line; it touches neither repository and is left out.
\<close>

fun assign_loop ::
  "InMemoryVehicleRepository \<Rightarrow> Vehicle list \<Rightarrow> Group
     \<Rightarrow> InMemoryVehicleRepository \<times> go_int \<times> bool" where
  "assign_loop repo [] grp = (repo, 0, False)"
| "assign_loop repo (v # rest) grp =
     (if People grp \<le>s Seats v
      then (UpdateVehicleSeats repo (Vehicle.ID v) (Seats v - People grp),
            Vehicle.ID v, True)
      else assign_loop repo rest grp)"

definition AssignVehicleToGroup ::
  "InMemoryVehicleRepository \<Rightarrow> Group \<Rightarrow> InMemoryVehicleRepository \<times> go_int \<times> bool" where
  "AssignVehicleToGroup repo grp = assign_loop repo (GetAllVehicles repo) grp"

definition ReleaseVehicleSeats ::
  "InMemoryVehicleRepository \<Rightarrow> go_int \<Rightarrow> go_int \<Rightarrow> InMemoryVehicleRepository" where
  "ReleaseVehicleSeats repo vehicleID seats = UpdateVehicleSeats repo vehicleID seats"

subsection \<open>InMemoryGroupRepository\<close>

definition AddGroup :: "InMemoryGroupRepository \<Rightarrow> Group \<Rightarrow> InMemoryGroupRepository" where
  "AddGroup repo grp = repo\<lparr>groupsQueue := groupsQueue repo @ [grp]\<rparr>"

text \<open>The loop of \<^verbatim>\<open>RemoveGroup\<close> over the queue: \<open>Some\<close> of the queue without the
  first group carrying the id, or \<open>None\<close> when no group carries it.\<close>

fun remove_first :: "Group list \<Rightarrow> go_int \<Rightarrow> Group list option" where
  "remove_first [] groupID = None"
| "remove_first (g # gs) groupID =
     (if Group.ID g = groupID then Some gs
      else map_option ((#) g) (remove_first gs groupID))"

definition RemoveGroup ::
  "InMemoryGroupRepository \<Rightarrow> go_int \<Rightarrow> InMemoryGroupRepository \<times> bool" where
  "RemoveGroup repo groupID =
     (case remove_first (groupsQueue repo) groupID of
        Some q \<Rightarrow> (repo\<lparr>groupsQueue := q\<rparr>, True)
      | None \<Rightarrow> (repo\<lparr>groupToCar := (groupToCar repo)(groupID := None)\<rparr>, False))"

fun find_loop :: "Group list \<Rightarrow> go_int \<Rightarrow> Group \<times> bool" where
  "find_loop [] groupID = (zero_Group, False)"
| "find_loop (g # gs) groupID =
     (if Group.ID g = groupID then (g, True) else find_loop gs groupID)"

definition FindGroup :: "InMemoryGroupRepository \<Rightarrow> go_int \<Rightarrow> Group \<times> bool" where
  "FindGroup repo groupID = find_loop (groupsQueue repo) groupID"

definition GetNextWaitingGroup :: "InMemoryGroupRepository \<Rightarrow> Group \<times> bool" where
  "GetNextWaitingGroup repo =
     (case groupsQueue repo of [] \<Rightarrow> (zero_Group, False) | g # _ \<Rightarrow> (g, True))"

subsection \<open>The handlers\<close>

text \<open>
  The state the closures of \<^verbatim>\<open>main\<close> share, and the answers they write. A request
  whose body does not bind is answered 400 before any repository is touched; the
  handlers below take the bound value.
\<close>

record server =
  vehicleRepo :: InMemoryVehicleRepository
  groupRepo :: InMemoryGroupRepository

datatype response =
    EVsRegistered                 \<comment> \<open>200, "EVs registered successfully"\<close>
  | JourneyStarted go_int         \<comment> \<open>200, "Journey started" with the car id\<close>
  | AddedToWaitlist               \<comment> \<open>202, "Added to waitlist"\<close>
  | GroupDroppedOff               \<comment> \<open>200, "Group dropped off"\<close>
  | GroupNotFound                 \<comment> \<open>404, "Group not found"\<close>
  | CarId go_int                  \<comment> \<open>200 with the car id\<close>
  | NoContent                     \<comment> \<open>204\<close>

definition initial :: server where
  "initial = \<lparr>vehicleRepo = \<lparr>vehicles = []\<rparr>,
              groupRepo = \<lparr>groupsQueue = [], groupToCar = Map.empty\<rparr>\<rparr>"

definition evs :: "server \<Rightarrow> Vehicle list \<Rightarrow> server \<times> response" where
  "evs s newVehicles =
     (s\<lparr>vehicleRepo := SaveVehicles (vehicleRepo s) newVehicles,
        groupRepo := (groupRepo s)\<lparr>groupsQueue := [], groupToCar := Map.empty\<rparr>\<rparr>,
      EVsRegistered)"

definition journey :: "server \<Rightarrow> Group \<Rightarrow> server \<times> response" where
  "journey s grp =
     (case AssignVehicleToGroup (vehicleRepo s) grp of
        (repo, carID, assigned) \<Rightarrow>
          if assigned
          then (s\<lparr>vehicleRepo := repo,
                  groupRepo := (groupRepo s)
                    \<lparr>groupToCar := (groupToCar (groupRepo s))(Group.ID grp \<mapsto> carID)\<rparr>\<rparr>,
                JourneyStarted carID)
          else (s\<lparr>vehicleRepo := repo, groupRepo := AddGroup (groupRepo s) grp\<rparr>,
                AddedToWaitlist))"

definition dropoff :: "server \<Rightarrow> go_int \<Rightarrow> server \<times> response" where
  "dropoff s requestID =
     (case groupToCar (groupRepo s) requestID of
        Some carID \<Rightarrow>
          (case FindGroup (groupRepo s) requestID of
             (grp, _) \<Rightarrow>
               (s\<lparr>vehicleRepo := ReleaseVehicleSeats (vehicleRepo s) carID (People grp),
                  groupRepo := (groupRepo s)
                    \<lparr>groupToCar := (groupToCar (groupRepo s))(requestID := None)\<rparr>\<rparr>,
                GroupDroppedOff))
      | None \<Rightarrow> (s, GroupNotFound))"

definition locate :: "server \<Rightarrow> go_int \<Rightarrow> server \<times> response" where
  "locate s requestID =
     (case groupToCar (groupRepo s) requestID of
        Some carID \<Rightarrow> (s, CarId carID)
      | None \<Rightarrow> (s, NoContent))"

text \<open>A run of the server: the requests it serves, one after the other.\<close>

datatype request =
    PutEvs "Vehicle list"
  | PostJourney Group
  | PostDropoff go_int
  | PostLocate go_int

fun handle :: "server \<Rightarrow> request \<Rightarrow> server \<times> response" where
  "handle s (PutEvs newVehicles) = evs s newVehicles"
| "handle s (PostJourney grp) = journey s grp"
| "handle s (PostDropoff requestID) = dropoff s requestID"
| "handle s (PostLocate requestID) = locate s requestID"

fun run :: "server \<Rightarrow> request list \<Rightarrow> server" where
  "run s [] = s"
| "run s (r # rs) = run (fst (handle s r)) rs"

subsection \<open>Request payloads and traces\<close>

text \<open>The literals \<^verbatim>\<open>Vehicle{ID: i, Seats: n}\<close> and \<^verbatim>\<open>Group{ID: i, People: n}\<close>.\<close>

definition car :: "go_int \<Rightarrow> go_int \<Rightarrow> Vehicle" where
  "car i n = \<lparr>Vehicle.ID = i, Seats = n\<rparr>"

definition party :: "go_int \<Rightarrow> go_int \<Rightarrow> Group" where
  "party i n = \<lparr>Group.ID = i, People = n\<rparr>"

text \<open>A group id is waiting when some group of the queue carries it, riding when the
  table has an entry for it, and active when it is either.\<close>

definition waiting :: "server \<Rightarrow> go_int \<Rightarrow> bool" where
  "waiting s groupID = (groupID \<in> Group.ID ` set (groupsQueue (groupRepo s)))"

definition riding :: "server \<Rightarrow> go_int \<Rightarrow> bool" where
  "riding s groupID = (groupToCar (groupRepo s) groupID \<noteq> None)"

definition active :: "server \<Rightarrow> go_int \<Rightarrow> bool" where
  "active s groupID = (waiting s groupID \<or> riding s groupID)"

text \<open>
  The handlers check nothing beyond the JSON types. The data model of the service asks
  more of its callers, and some properties hold only for callers that comply:
  \<^item> \<open>fresh_ids s rs\<close>: every journey request of the trace \<open>rs\<close>, served from \<open>s\<close> on,
    carries a group id that is not active when the request arrives;
  \<^item> \<open>valid_payload r\<close>: a registered fleet has pairwise distinct vehicle ids and no
    negative seat count, and a journey request has no negative people count.
\<close>

fun fresh_ids :: "server \<Rightarrow> request list \<Rightarrow> bool" where
  "fresh_ids s [] = True"
| "fresh_ids s (PostJourney grp # rs) =
     (\<not> active s (Group.ID grp) \<and> fresh_ids (fst (handle s (PostJourney grp))) rs)"
| "fresh_ids s (r # rs) = fresh_ids (fst (handle s r)) rs"

fun valid_payload :: "request \<Rightarrow> bool" where
  "valid_payload (PutEvs newVehicles) =
     (distinct (map Vehicle.ID newVehicles) \<and> list_all (\<lambda>v. 0 \<le>s Seats v) newVehicles)"
| "valid_payload (PostJourney grp) = (0 \<le>s People grp)"
| "valid_payload r = True"

text \<open>The fleet as it was last registered: each vehicle with its original capacity.
  The first argument is the registration in force before the trace.\<close>

fun registered :: "Vehicle list \<Rightarrow> request list \<Rightarrow> Vehicle list" where
  "registered c [] = c"
| "registered c (PutEvs newVehicles # rs) = registered newVehicles rs"
| "registered c (r # rs) = registered c rs"

text \<open>A vehicle \<open>v\<close> of the fleet against its registration \<open>c\<close>: the same id, and a
  remaining seat count between zero and the registered one.\<close>

definition within_capacity :: "Vehicle \<Rightarrow> Vehicle \<Rightarrow> bool" where
  "within_capacity v c =
     (Vehicle.ID v = Vehicle.ID c \<and> 0 \<le>s Seats v \<and> Seats v \<le>s Seats c)"

text \<open>The equations that evaluate a run on concrete requests.\<close>

lemmas service_defs =
  car_def party_def initial_def evs_def journey_def dropoff_def locate_def
  AssignVehicleToGroup_def GetAllVehicles_def SaveVehicles_def UpdateVehicleSeats_def
  ReleaseVehicleSeats_def AddGroup_def FindGroup_def RemoveGroup_def zero_Group_def
  waiting_def riding_def active_def within_capacity_def word_sle_eq

section \<open>Facts about the loops\<close>

text \<open>
  The least index at which a property holds.
\<close>

lemma first_index:
  "\<exists>x\<in>set xs. P x \<Longrightarrow> \<exists>i<length xs. P (xs ! i) \<and> (\<forall>j<i. \<not> P (xs ! j))"
proof (induction xs)
  case Nil
  then show ?case by simp
next
  case (Cons x xs)
  show ?case
  proof (cases "P x")
    case True
    then have "0 < length (x # xs) \<and> P ((x # xs) ! 0) \<and> (\<forall>j<0. \<not> P ((x # xs) ! j))"
      by simp
    then show ?thesis by blast
  next
    case False
    with Cons.prems have "\<exists>y\<in>set xs. P y" by simp
    then obtain i where i: "i < length xs" "P (xs ! i)" "\<forall>j<i. \<not> P (xs ! j)"
      using Cons.IH by blast
    have "\<forall>j<Suc i. \<not> P ((x # xs) ! j)"
      using False i(3) by (simp add: nth_Cons split: nat.splits)
    with i(1,2) have "Suc i < length (x # xs) \<and> P ((x # xs) ! Suc i) \<and> (\<forall>j<Suc i. \<not> P ((x # xs) ! j))"
      by simp
    then show ?thesis by blast
  qed
qed

text \<open>
  \<^verbatim>\<open>FindGroup\<close> and \<^verbatim>\<open>RemoveGroup\<close> search the waiting queue from its head.
\<close>

lemma find_loop_found: "snd (find_loop q groupID) = (groupID \<in> Group.ID ` set q)"
  by (induction q) auto

lemma find_loop_absent:
  "groupID \<notin> Group.ID ` set q \<Longrightarrow> find_loop q groupID = (zero_Group, False)"
  by (induction q) auto

lemma remove_first_None:
  "(remove_first q groupID = None) = (groupID \<notin> Group.ID ` set q)"
  by (induction q) auto

lemma remove_first_Some:
  "groupID \<in> Group.ID ` set q \<Longrightarrow>
   remove_first q groupID =
     Some (takeWhile (\<lambda>g. Group.ID g \<noteq> groupID) q @ tl (dropWhile (\<lambda>g. Group.ID g \<noteq> groupID) q))"
  by (induction q) auto

text \<open>
  The scan of \<^verbatim>\<open>AssignVehicleToGroup\<close>: without a fit it changes nothing; with one it
  updates by the id of the first fit.
\<close>

lemma assign_loop_no_fit:
  "\<forall>v\<in>set vs. \<not> People grp \<le>s Seats v \<Longrightarrow> assign_loop repo vs grp = (repo, 0, False)"
  by (induction vs) auto

lemma assign_loop_first_fit:
  "i < length vs \<Longrightarrow> People grp \<le>s Seats (vs ! i) \<Longrightarrow>
   \<forall>j<i. \<not> People grp \<le>s Seats (vs ! j) \<Longrightarrow>
   assign_loop repo vs grp =
     (UpdateVehicleSeats repo (Vehicle.ID (vs ! i)) (Seats (vs ! i) - People grp),
      Vehicle.ID (vs ! i), True)"
proof (induction vs arbitrary: i)
  case Nil
  then show ?case by simp
next
  case (Cons v vs)
  show ?case
  proof (cases i)
    case 0
    with Cons.prems show ?thesis by simp
  next
    case (Suc k)
    with Cons.prems have "\<not> People grp \<le>s Seats v" by auto
    moreover have "assign_loop repo vs grp =
        (UpdateVehicleSeats repo (Vehicle.ID (vs ! k)) (Seats (vs ! k) - People grp),
         Vehicle.ID (vs ! k), True)"
      using Cons.prems Suc by (intro Cons.IH) auto
    ultimately show ?thesis using Suc by simp
  qed
qed

text \<open>
  \<^verbatim>\<open>UpdateVehicleSeats\<close> writes to the first vehicle that carries the id, and never
  changes an id.
\<close>

lemma update_seats_first:
  "i < length vs \<Longrightarrow> \<forall>j<i. Vehicle.ID (vs ! j) \<noteq> Vehicle.ID (vs ! i) \<Longrightarrow>
   update_seats vs (Vehicle.ID (vs ! i)) n = vs[i := (vs ! i)\<lparr>Seats := n\<rparr>]"
proof (induction vs arbitrary: i)
  case Nil
  then show ?case by simp
next
  case (Cons v vs)
  show ?case
  proof (cases i)
    case 0
    then show ?thesis by simp
  next
    case (Suc k)
    with Cons.prems have "Vehicle.ID v \<noteq> Vehicle.ID (vs ! k)" by auto
    moreover have "update_seats vs (Vehicle.ID (vs ! k)) n = vs[k := (vs ! k)\<lparr>Seats := n\<rparr>]"
      using Cons.prems Suc by (intro Cons.IH) auto
    ultimately show ?thesis using Suc by simp
  qed
qed

lemma update_seats_ids: "map Vehicle.ID (update_seats vs vehicleID n) = map Vehicle.ID vs"
  by (induction vs) auto

text \<open>
  Subtraction on \<^verbatim>\<open>int\<close> is exact as long as the difference fits 64 bits.
\<close>

lemma sint_diff_exact:
  fixes a b :: go_int
  assumes "b \<le>s a" and "sint a - sint b < 2 ^ 63"
  shows "sint (a - b) = sint a - sint b"
proof -
  have "- (2 ^ 63) \<le> sint a - sint b"
    using assms(1) by (simp add: word_sle_eq)
  with assms(2) show ?thesis
    by (simp add: sint_word_diff signed_take_bit_int_eq_self)
qed

lemma sint_diff_nonneg:
  fixes a b :: go_int
  assumes "0 \<le>s b" and "b \<le>s a"
  shows "sint (a - b) = sint a - sint b"
proof -
  have "sint a < 2 ^ 63"
    using sint_lt [of a] by simp
  moreover have "0 \<le> sint b"
    using assms(1) by (simp add: word_sle_eq)
  ultimately have "sint a - sint b < 2 ^ 63" by simp
  with assms(2) show ?thesis by (rule sint_diff_exact)
qed

text \<open>
  What \<^verbatim>\<open>AssignVehicleToGroup\<close> returns when \<open>i\<close> is the first index with enough seats, and
  what the handlers do to the fleet and to the ledger.
\<close>

lemma assign_first_fit:
  fixes repo :: InMemoryVehicleRepository
  defines "vs \<equiv> vehicles repo"
  assumes i: "i < length vs" "People grp \<le>s Seats (vs ! i)"
      "\<forall>j<i. \<not> People grp \<le>s Seats (vs ! j)"
  shows "AssignVehicleToGroup repo grp =
           (UpdateVehicleSeats repo (Vehicle.ID (vs ! i)) (Seats (vs ! i) - People grp),
            Vehicle.ID (vs ! i), True)"
    and "\<forall>j<i. Vehicle.ID (vs ! j) \<noteq> Vehicle.ID (vs ! i) \<Longrightarrow>
         vehicles (fst (AssignVehicleToGroup repo grp)) =
           vs[i := (vs ! i)\<lparr>Seats := Seats (vs ! i) - People grp\<rparr>]"
proof -
  show a: "AssignVehicleToGroup repo grp =
      (UpdateVehicleSeats repo (Vehicle.ID (vs ! i)) (Seats (vs ! i) - People grp),
       Vehicle.ID (vs ! i), True)"
    unfolding AssignVehicleToGroup_def GetAllVehicles_def vs_def [symmetric]
    using i by (rule assign_loop_first_fit)
  show "vehicles (fst (AssignVehicleToGroup repo grp)) =
           vs[i := (vs ! i)\<lparr>Seats := Seats (vs ! i) - People grp\<rparr>]"
    if "\<forall>j<i. Vehicle.ID (vs ! j) \<noteq> Vehicle.ID (vs ! i)"
    using update_seats_first [OF i(1) that]
    by (simp add: a UpdateVehicleSeats_def vs_def)
qed

lemma assign_ids:
  "map Vehicle.ID (vehicles (fst (AssignVehicleToGroup repo grp))) = map Vehicle.ID (vehicles repo)"
proof -
  have "map Vehicle.ID (vehicles (fst (assign_loop repo vs grp))) = map Vehicle.ID (vehicles repo)"
    for vs
    by (induction vs) (simp_all add: UpdateVehicleSeats_def update_seats_ids)
  then show ?thesis by (simp add: AssignVehicleToGroup_def)
qed

lemma journey_assigned:
  assumes "snd (AssignVehicleToGroup (vehicleRepo s) grp) = (carID, True)"
  shows "journey s grp =
           (s\<lparr>vehicleRepo := fst (AssignVehicleToGroup (vehicleRepo s) grp),
               groupRepo := (groupRepo s)
                 \<lparr>groupToCar := (groupToCar (groupRepo s))(Group.ID grp \<mapsto> carID)\<rparr>\<rparr>,
            JourneyStarted carID)"
  using assms by (cases "AssignVehicleToGroup (vehicleRepo s) grp") (simp add: journey_def)

lemma journey_ledger:
  "groupRepo (fst (journey s grp)) =
     (if snd (snd (AssignVehicleToGroup (vehicleRepo s) grp))
      then (groupRepo s)\<lparr>groupToCar := (groupToCar (groupRepo s))
             (Group.ID grp \<mapsto> fst (snd (AssignVehicleToGroup (vehicleRepo s) grp)))\<rparr>
      else AddGroup (groupRepo s) grp)"
  by (simp add: journey_def split: prod.splits)

lemma journey_fleet:
  "vehicleRepo (fst (journey s grp)) = fst (AssignVehicleToGroup (vehicleRepo s) grp)"
  by (simp add: journey_def split: prod.splits)

lemma dropoff_ledger:
  "groupsQueue (groupRepo (fst (dropoff s requestID))) = groupsQueue (groupRepo s)"
  "groupToCar (groupRepo (fst (dropoff s requestID))) =
     (groupToCar (groupRepo s))(requestID := None)"
  by (auto simp add: dropoff_def split: option.splits prod.splits)

lemma dropoff_fleet:
  "vehicles (vehicleRepo (fst (dropoff s requestID))) =
     (case groupToCar (groupRepo s) requestID of
        None \<Rightarrow> vehicles (vehicleRepo s)
      | Some carID \<Rightarrow> update_seats (vehicles (vehicleRepo s)) carID
          (People (fst (find_loop (groupsQueue (groupRepo s)) requestID))))"
  by (simp add: dropoff_def FindGroup_def ReleaseVehicleSeats_def UpdateVehicleSeats_def
      split: option.splits prod.splits)

section \<open>Facts about runs\<close>

text \<open>
  While every journey request carries an id that is not active, no id is waiting and
  riding at once.
\<close>

lemma fresh_ids_Cons:
  "fresh_ids s (r # rs) = (fresh_ids s [r] \<and> fresh_ids (fst (handle s r)) rs)"
  by (cases r) simp_all

lemma handle_disjoint:
  assumes "\<forall>g. \<not> (waiting s g \<and> riding s g)"
    and "fresh_ids s [r]"
  shows "\<not> (waiting (fst (handle s r)) g \<and> riding (fst (handle s r)) g)"
proof (cases r)
  case (PutEvs newVehicles)
  then show ?thesis by (simp add: evs_def waiting_def)
next
  case (PostJourney grp)
  with assms(2) have "\<not> waiting s (Group.ID grp)" "\<not> riding s (Group.ID grp)"
    by (simp_all add: active_def)
  with assms(1) PostJourney show ?thesis
    by (auto simp add: journey_ledger AddGroup_def waiting_def riding_def)
next
  case (PostDropoff requestID)
  with assms(1) show ?thesis
    by (auto simp add: dropoff_ledger waiting_def riding_def)
next
  case (PostLocate requestID)
  with assms(1) show ?thesis
    by (simp add: locate_def split: option.splits)
qed


text \<open>
  Writing a seat count between zero and the current one keeps a vehicle within its
  capacity. An assignment of a group without a negative people count does so when ids are
  distinct; a drop-off of a group that is not waiting writes zero.
\<close>

lemma update_seats_within:
  assumes "list_all2 within_capacity vs c" and "0 \<le>s n"
    and "\<forall>v\<in>set vs. Vehicle.ID v = vehicleID \<longrightarrow> n \<le>s Seats v"
  shows "list_all2 within_capacity (update_seats vs vehicleID n) c"
  using assms(1,3)
proof (induction rule: list_all2_induct)
  case Nil
  then show ?case by simp
next
  case (Cons v vs k c)
  show ?case
  proof (cases "Vehicle.ID v = vehicleID")
    case True
    with Cons.prems have "n \<le>s Seats v" by simp
    with Cons.hyps(1) assms(2) have "within_capacity (v\<lparr>Seats := n\<rparr>) k"
      by (simp add: within_capacity_def word_sle_eq)
    with True Cons.hyps(2) show ?thesis by simp
  next
    case False
    with Cons show ?thesis by simp
  qed
qed

lemma within_nonneg:
  "list_all2 within_capacity vs c \<Longrightarrow> v \<in> set vs \<Longrightarrow> 0 \<le>s Seats v"
  by (auto simp add: list_all2_conv_all_nth in_set_conv_nth within_capacity_def)

lemma assign_within:
  assumes w: "list_all2 within_capacity (vehicles repo) c"
    and d: "distinct (map Vehicle.ID (vehicles repo))"
    and p: "0 \<le>s People grp"
  shows "list_all2 within_capacity (vehicles (fst (AssignVehicleToGroup repo grp))) c"
proof (cases "\<exists>v\<in>set (vehicles repo). People grp \<le>s Seats v")
  case False
  then have "AssignVehicleToGroup repo grp = (repo, 0, False)"
    by (simp add: AssignVehicleToGroup_def GetAllVehicles_def assign_loop_no_fit)
  with w show ?thesis by simp
next
  case True
  define vs where "vs = vehicles repo"
  from True obtain i where i: "i < length vs" "People grp \<le>s Seats (vs ! i)"
      "\<forall>j<i. \<not> People grp \<le>s Seats (vs ! j)"
    using first_index [of vs "\<lambda>v. People grp \<le>s Seats v"] unfolding vs_def by blast
  define n where "n = Seats (vs ! i) - People grp"
  have a: "vehicles (fst (AssignVehicleToGroup repo grp)) = update_seats vs (Vehicle.ID (vs ! i)) n"
    using assign_first_fit(1) [of i repo grp, folded vs_def, OF i]
    by (simp add: UpdateVehicleSeats_def vs_def n_def)
  have s: "sint n = sint (Seats (vs ! i)) - sint (People grp)"
    unfolding n_def using p i(2) by (rule sint_diff_nonneg)
  have n0: "0 \<le>s n" and n1: "n \<le>s Seats (vs ! i)"
    using p i(2) by (simp_all add: word_sle_eq s)
  have "inj_on Vehicle.ID (set vs)"
    using d by (simp add: distinct_map vs_def)
  then have "\<forall>v\<in>set vs. Vehicle.ID v = Vehicle.ID (vs ! i) \<longrightarrow> n \<le>s Seats v"
    using i(1) n1 by (auto dest: inj_onD)
  with w n0 show ?thesis
    unfolding a vs_def [symmetric] by (intro update_seats_within)
qed

lemma dropoff_within:
  assumes w: "list_all2 within_capacity (vehicles (vehicleRepo s)) c"
    and x: "\<not> (waiting s requestID \<and> riding s requestID)"
  shows "list_all2 within_capacity (vehicles (vehicleRepo (fst (dropoff s requestID)))) c"
proof (cases "groupToCar (groupRepo s) requestID")
  case None
  with w show ?thesis by (simp add: dropoff_fleet)
next
  case (Some carID)
  with x have "requestID \<notin> Group.ID ` set (groupsQueue (groupRepo s))"
    by (simp add: waiting_def riding_def)
  then have "People (fst (find_loop (groupsQueue (groupRepo s)) requestID)) = 0"
    by (simp add: find_loop_absent zero_Group_def)
  moreover have "list_all2 within_capacity (update_seats (vehicles (vehicleRepo s)) carID 0) c"
    using w within_nonneg [OF w] by (intro update_seats_within) simp_all
  ultimately show ?thesis
    by (simp add: dropoff_fleet Some)
qed

lemma handle_within:
  assumes w: "list_all2 within_capacity (vehicles (vehicleRepo s)) c"
    and d: "distinct (map Vehicle.ID (vehicles (vehicleRepo s)))"
    and x: "\<forall>g. \<not> (waiting s g \<and> riding s g)"
    and v: "valid_payload r"
  shows "list_all2 within_capacity (vehicles (vehicleRepo (fst (handle s r)))) (registered c [r]) \<and>
         distinct (map Vehicle.ID (vehicles (vehicleRepo (fst (handle s r)))))"
proof (cases r)
  case (PutEvs newVehicles)
  with v have "distinct (map Vehicle.ID newVehicles)" "\<forall>v\<in>set newVehicles. 0 \<le>s Seats v"
    by (simp_all add: list_all_iff)
  then show ?thesis
    by (simp add: PutEvs evs_def SaveVehicles_def list_all2_same within_capacity_def)
next
  case (PostJourney grp)
  with v have "0 \<le>s People grp" by simp
  from assign_within [OF w d this] d show ?thesis
    by (simp add: PostJourney journey_fleet assign_ids)
next
  case (PostDropoff requestID)
  from x have "\<not> (waiting s requestID \<and> riding s requestID)" by blast
  from dropoff_within [OF w this] d show ?thesis
    by (simp add: PostDropoff dropoff_fleet update_seats_ids split: option.splits)
next
  case (PostLocate requestID)
  with w d show ?thesis
    by (simp add: locate_def split: option.splits)
qed

lemma registered_Cons: "registered c (r # rs) = registered (registered c [r]) rs"
  by (cases r) simp_all

lemma run_within:
  "list_all2 within_capacity (vehicles (vehicleRepo s)) c \<Longrightarrow>
   distinct (map Vehicle.ID (vehicles (vehicleRepo s))) \<Longrightarrow>
   \<forall>g. \<not> (waiting s g \<and> riding s g) \<Longrightarrow>
   fresh_ids s rs \<Longrightarrow> list_all valid_payload rs \<Longrightarrow>
   list_all2 within_capacity (vehicles (vehicleRepo (run s rs))) (registered c rs)"
proof (induction rs arbitrary: s c)
  case Nil
  then show ?case by simp
next
  case (Cons r rs)
  from Cons.prems(4) have f: "fresh_ids s [r]" "fresh_ids (fst (handle s r)) rs"
    by (simp_all add: fresh_ids_Cons [of s r rs])
  from Cons.prems(5) have v: "valid_payload r" "list_all valid_payload rs"
    by simp_all
  note h = handle_within [OF Cons.prems(1,2,3) v(1)]
  have x: "\<forall>g. \<not> (waiting (fst (handle s r)) g \<and> riding (fst (handle s r)) g)"
    using handle_disjoint [OF Cons.prems(3) f(1)] by blast
  have "list_all2 within_capacity (vehicles (vehicleRepo (run (fst (handle s r)) rs)))
          (registered (registered c [r]) rs)"
    using h x f(2) v(2) by (intro Cons.IH) simp_all
  then show ?case
    by (simp add: registered_Cons [of c r rs])
qed

section \<open>Fleet registration\<close>

text \<open>
  Claim C6. From any prior state, registering a fleet answers with success, leaves the
  waiting queue and the assignment table empty, and makes the given list the fleet:
  every vehicle is listed with the seat count the request stated.
\<close>

theorem C6_register_fleet_resets:
  "snd (evs s newVehicles) = EVsRegistered \<and>
   groupsQueue (groupRepo (fst (evs s newVehicles))) = [] \<and>
   groupToCar (groupRepo (fst (evs s newVehicles))) = Map.empty \<and>
   GetAllVehicles (vehicleRepo (fst (evs s newVehicles))) = newVehicles"
  by (simp add: evs_def SaveVehicles_def GetAllVehicles_def)

section \<open>A journey request with a fitting vehicle\<close>

text \<open>
  Claim C1, as amended. Let some vehicle of the fleet have at least as many remaining
  seats as the group has people, and let \<open>i\<close> be the first such vehicle in registration
  order. \<^verbatim>\<open>AssignVehicleToGroup\<close> returns the id of vehicle \<open>i\<close> with \<^verbatim>\<open>true\<close>, the handler
  answers "Journey started" with that id and records it for the group. If no earlier
  vehicle carries the same id, vehicle \<open>i\<close> gets the seat count \<^verbatim>\<open>Seats - People\<close> of Go's
  wrapping 64-bit subtraction and every other vehicle is unchanged; the new count is the
  old one minus the people count as integers whenever the people count is not negative
  or that difference is below \<open>2^63\<close>.
\<close>

theorem C1_first_fit:
  fixes s :: server
  defines "vs \<equiv> vehicles (vehicleRepo s)"
  assumes "\<exists>v\<in>set vs. People grp \<le>s Seats v"
  shows "\<exists>i<length vs.
           People grp \<le>s Seats (vs ! i) \<and>
           (\<forall>j<i. \<not> People grp \<le>s Seats (vs ! j)) \<and>
           snd (AssignVehicleToGroup (vehicleRepo s) grp) = (Vehicle.ID (vs ! i), True) \<and>
           snd (journey s grp) = JourneyStarted (Vehicle.ID (vs ! i)) \<and>
           groupToCar (groupRepo (fst (journey s grp))) (Group.ID grp) =
             Some (Vehicle.ID (vs ! i)) \<and>
           ((\<forall>j<i. Vehicle.ID (vs ! j) \<noteq> Vehicle.ID (vs ! i)) \<longrightarrow>
              vehicles (vehicleRepo (fst (journey s grp))) =
                vs[i := (vs ! i)\<lparr>Seats := Seats (vs ! i) - People grp\<rparr>] \<and>
              (0 \<le>s People grp \<or> sint (Seats (vs ! i)) - sint (People grp) < 2 ^ 63 \<longrightarrow>
                 sint (Seats (vehicles (vehicleRepo (fst (journey s grp))) ! i)) =
                   sint (Seats (vs ! i)) - sint (People grp)))"
proof -
  from assms(2) obtain i where i: "i < length vs" "People grp \<le>s Seats (vs ! i)"
      "\<forall>j<i. \<not> People grp \<le>s Seats (vs ! j)"
    using first_index [of vs "\<lambda>v. People grp \<le>s Seats v"] by blast
  note o = assign_first_fit [of i "vehicleRepo s" grp, folded vs_def, OF i]
  have r: "snd (AssignVehicleToGroup (vehicleRepo s) grp) = (Vehicle.ID (vs ! i), True)"
    by (simp add: o(1))
  note j = journey_assigned [OF r]
  have u: "vehicles (vehicleRepo (fst (journey s grp))) =
             vs[i := (vs ! i)\<lparr>Seats := Seats (vs ! i) - People grp\<rparr>]"
    if "\<forall>j<i. Vehicle.ID (vs ! j) \<noteq> Vehicle.ID (vs ! i)"
    using o(2) [OF that] by (simp add: j)
  have e: "sint (Seats (vehicles (vehicleRepo (fst (journey s grp))) ! i)) =
             sint (Seats (vs ! i)) - sint (People grp)"
    if d: "\<forall>j<i. Vehicle.ID (vs ! j) \<noteq> Vehicle.ID (vs ! i)"
      and b: "0 \<le>s People grp \<or> sint (Seats (vs ! i)) - sint (People grp) < 2 ^ 63"
  proof -
    from b have "sint (Seats (vs ! i) - People grp) = sint (Seats (vs ! i)) - sint (People grp)"
      using sint_diff_nonneg [OF _ i(2)] sint_diff_exact [OF i(2)] by blast
    with u [OF d] i(1) show ?thesis by simp
  qed
  have "People grp \<le>s Seats (vs ! i) \<and>
        (\<forall>j<i. \<not> People grp \<le>s Seats (vs ! j)) \<and>
        snd (AssignVehicleToGroup (vehicleRepo s) grp) = (Vehicle.ID (vs ! i), True) \<and>
        snd (journey s grp) = JourneyStarted (Vehicle.ID (vs ! i)) \<and>
        groupToCar (groupRepo (fst (journey s grp))) (Group.ID grp) = Some (Vehicle.ID (vs ! i)) \<and>
        ((\<forall>j<i. Vehicle.ID (vs ! j) \<noteq> Vehicle.ID (vs ! i)) \<longrightarrow>
           vehicles (vehicleRepo (fst (journey s grp))) =
             vs[i := (vs ! i)\<lparr>Seats := Seats (vs ! i) - People grp\<rparr>] \<and>
           (0 \<le>s People grp \<or> sint (Seats (vs ! i)) - sint (People grp) < 2 ^ 63 \<longrightarrow>
              sint (Seats (vehicles (vehicleRepo (fst (journey s grp))) ! i)) =
                sint (Seats (vs ! i)) - sint (People grp)))"
    using i(2,3) u e r by (simp add: j)
  with i(1) show ?thesis
    by blast
qed

theorem C1_first_fit_witness:
  "(\<exists>v\<in>set (vehicles (vehicleRepo (run initial [PutEvs [car 1 4, car 2 6, car 3 9]]))).
      People (party 8 5) \<le>s Seats v) \<and>
   snd (journey (run initial [PutEvs [car 1 4, car 2 6, car 3 9]]) (party 8 5)) =
     JourneyStarted 2 \<and>
   vehicles (vehicleRepo (fst (journey (run initial [PutEvs [car 1 4, car 2 6, car 3 9]])
     (party 8 5)))) = [car 1 4, car 2 1, car 3 9] \<and>
   sint (Seats (vehicles (vehicleRepo (fst (journey (run initial [PutEvs [car 1 4, car 2 6, car 3 9]])
     (party 8 5)))) ! 1)) = 6 - 5"
proof -
  define s where "s = run initial [PutEvs [car 1 4, car 2 6, car 3 9]]"
  define vs where "vs = vehicles (vehicleRepo s)"
  have vs: "vs = [car 1 4, car 2 6, car 3 9]"
    by (simp add: vs_def s_def service_defs)
  have h: "\<exists>v\<in>set (vehicles (vehicleRepo s)). People (party 8 5) \<le>s Seats v"
    unfolding vs_def [symmetric] vs by (simp add: service_defs)
  from C1_first_fit [OF h, folded vs_def]
  obtain i where i: "i < length vs" "People (party 8 5) \<le>s Seats (vs ! i)"
      "\<forall>j<i. \<not> People (party 8 5) \<le>s Seats (vs ! j)"
    and r: "snd (journey s (party 8 5)) = JourneyStarted (Vehicle.ID (vs ! i))"
    and u: "(\<forall>j<i. Vehicle.ID (vs ! j) \<noteq> Vehicle.ID (vs ! i)) \<longrightarrow>
              vehicles (vehicleRepo (fst (journey s (party 8 5)))) =
                vs[i := (vs ! i)\<lparr>Seats := Seats (vs ! i) - People (party 8 5)\<rparr>] \<and>
              (0 \<le>s People (party 8 5) \<or>
               sint (Seats (vs ! i)) - sint (People (party 8 5)) < 2 ^ 63 \<longrightarrow>
                 sint (Seats (vehicles (vehicleRepo (fst (journey s (party 8 5)))) ! i)) =
                   sint (Seats (vs ! i)) - sint (People (party 8 5)))"
    by blast
  have "i \<noteq> 0"
  proof
    assume "i = 0"
    with i(2) show False by (simp add: vs service_defs)
  qed
  moreover have "i \<noteq> 2"
  proof
    assume "i = 2"
    with i(3) have "\<not> People (party 8 5) \<le>s Seats (vs ! 1)" by simp
    then show False by (simp add: vs service_defs)
  qed
  ultimately have i1: "i = 1"
    using i(1) by (simp add: vs)
  from r u h show ?thesis
    unfolding i1 s_def [symmetric] vs_def [symmetric] vs
    by (simp add: service_defs)
qed

text \<open>
  The claim as stated speaks of every fleet. \<^verbatim>\<open>UpdateVehicleSeats\<close> finds the vehicle by
  id, from the head of the fleet: when an earlier vehicle carries the id of the first
  fit, the earlier one is overwritten and the first fit keeps its seats (here the second
  vehicle fits a group of 3 and still has 5 seats afterwards). And the subtraction wraps:
  a group of \<open>-1\<close> people takes a vehicle from the largest \<^verbatim>\<open>int\<close> to the smallest.
\<close>

theorem C1_counterexample:
  "AssignVehicleToGroup \<lparr>vehicles = [car 1 1, car 1 5]\<rparr> (party 7 3) =
     (\<lparr>vehicles = [car 1 2, car 1 5]\<rparr>, 1, True) \<and>
   AssignVehicleToGroup \<lparr>vehicles = [car 1 9223372036854775807]\<rparr> (party 7 (- 1)) =
     (\<lparr>vehicles = [car 1 (- 9223372036854775808)]\<rparr>, 1, True)"
  by (simp add: service_defs)

text \<open>
  Claim C10, as amended. Let the people count be zero or negative, and let some vehicle
  of the fleet have at least that many remaining seats, which a vehicle whose seat count
  is not negative always has. \<^verbatim>\<open>AssignVehicleToGroup\<close> returns \<^verbatim>\<open>true\<close> with the id of the first such
  vehicle. When the count is strictly negative, no earlier vehicle carries the same id
  and the integer difference of seats and people is below \<open>2^63\<close>, the remaining seats of
  that vehicle are strictly greater afterwards than before.
\<close>

theorem C10_nonpositive_people:
  fixes repo :: InMemoryVehicleRepository
  defines "vs \<equiv> vehicles repo"
  assumes "People grp \<le>s 0" and "\<exists>v\<in>set vs. People grp \<le>s Seats v \<or> 0 \<le>s Seats v"
  shows "\<exists>i<length vs.
           People grp \<le>s Seats (vs ! i) \<and>
           (\<forall>j<i. \<not> People grp \<le>s Seats (vs ! j)) \<and>
           snd (AssignVehicleToGroup repo grp) = (Vehicle.ID (vs ! i), True) \<and>
           (People grp <s 0 \<and> (\<forall>j<i. Vehicle.ID (vs ! j) \<noteq> Vehicle.ID (vs ! i)) \<and>
            sint (Seats (vs ! i)) - sint (People grp) < 2 ^ 63 \<longrightarrow>
              Seats (vs ! i) <s Seats (vehicles (fst (AssignVehicleToGroup repo grp)) ! i))"
proof -
  from assms(3) obtain v where v: "v \<in> set vs" "People grp \<le>s Seats v \<or> 0 \<le>s Seats v"
    by blast
  with assms(2) have "People grp \<le>s Seats v"
    by (auto simp add: word_sle_eq)
  with v(1) have "\<exists>v\<in>set vs. People grp \<le>s Seats v"
    by blast
  then obtain i where i: "i < length vs" "People grp \<le>s Seats (vs ! i)"
      "\<forall>j<i. \<not> People grp \<le>s Seats (vs ! j)"
    using first_index [of vs "\<lambda>v. People grp \<le>s Seats v"] by blast
  note o = assign_first_fit [of i repo grp, folded vs_def, OF i]
  have g: "Seats (vs ! i) <s Seats (vehicles (fst (AssignVehicleToGroup repo grp)) ! i)"
    if n: "People grp <s 0" and d: "\<forall>j<i. Vehicle.ID (vs ! j) \<noteq> Vehicle.ID (vs ! i)"
      and b: "sint (Seats (vs ! i)) - sint (People grp) < 2 ^ 63"
  proof -
    have neg: "sint (People grp) < 0"
      using n by (simp add: word_sless_alt)
    have "sint (Seats (vehicles (fst (AssignVehicleToGroup repo grp)) ! i)) =
            sint (Seats (vs ! i)) - sint (People grp)"
      using o(2) [OF d] i(1) sint_diff_exact [OF i(2) b] by simp
    with neg show ?thesis
      by (simp add: word_sless_alt)
  qed
  have "People grp \<le>s Seats (vs ! i) \<and>
           (\<forall>j<i. \<not> People grp \<le>s Seats (vs ! j)) \<and>
           snd (AssignVehicleToGroup repo grp) = (Vehicle.ID (vs ! i), True) \<and>
           (People grp <s 0 \<and> (\<forall>j<i. Vehicle.ID (vs ! j) \<noteq> Vehicle.ID (vs ! i)) \<and>
            sint (Seats (vs ! i)) - sint (People grp) < 2 ^ 63 \<longrightarrow>
              Seats (vs ! i) <s Seats (vehicles (fst (AssignVehicleToGroup repo grp)) ! i))"
    using i(2,3) g by (simp add: o(1))
  with i(1) show ?thesis
    by blast
qed

theorem C10_nonpositive_people_witness:
  "People (party 8 (- 2)) \<le>s 0 \<and>
   (\<exists>v\<in>set (vehicles \<lparr>vehicles = [car 1 4, car 2 6]\<rparr>).
      People (party 8 (- 2)) \<le>s Seats v \<or> 0 \<le>s Seats v) \<and>
   snd (AssignVehicleToGroup \<lparr>vehicles = [car 1 4, car 2 6]\<rparr> (party 8 (- 2))) = (1, True) \<and>
   Seats (car 1 4) <s
     Seats (vehicles (fst (AssignVehicleToGroup \<lparr>vehicles = [car 1 4, car 2 6]\<rparr>
       (party 8 (- 2)))) ! 0)"
proof -
  define repo where "repo = \<lparr>vehicles = [car 1 4, car 2 6]\<rparr>"
  have vs: "vehicles repo = [car 1 4, car 2 6]"
    by (simp add: repo_def)
  have n: "People (party 8 (- 2)) \<le>s 0" "People (party 8 (- 2)) <s 0"
    by (simp_all add: party_def word_sle_eq word_sless_alt)
  have h: "\<exists>v\<in>set (vehicles repo). People (party 8 (- 2)) \<le>s Seats v \<or> 0 \<le>s Seats v"
    by (simp add: vs service_defs)
  from C10_nonpositive_people [OF n(1) h]
  obtain i where i: "\<forall>j<i. \<not> People (party 8 (- 2)) \<le>s Seats (vehicles repo ! j)"
    and r: "snd (AssignVehicleToGroup repo (party 8 (- 2))) = (Vehicle.ID (vehicles repo ! i), True)"
    and g: "People (party 8 (- 2)) <s 0 \<and>
            (\<forall>j<i. Vehicle.ID (vehicles repo ! j) \<noteq> Vehicle.ID (vehicles repo ! i)) \<and>
            sint (Seats (vehicles repo ! i)) - sint (People (party 8 (- 2))) < 2 ^ 63 \<longrightarrow>
              Seats (vehicles repo ! i) <s
                Seats (vehicles (fst (AssignVehicleToGroup repo (party 8 (- 2)))) ! i)"
    by blast
  have i0: "i = 0"
  proof (rule ccontr)
    assume "i \<noteq> 0"
    with i have "\<not> People (party 8 (- 2)) \<le>s Seats (vehicles repo ! 0)" by simp
    then show False by (simp add: vs service_defs)
  qed
  have b: "sint (Seats (vehicles repo ! 0)) - sint (People (party 8 (- 2))) < 2 ^ 63"
    by (simp add: vs service_defs)
  from r g n h b show ?thesis
    unfolding i0 repo_def [symmetric] by (simp add: vs car_def)
qed

text \<open>
  The claim as stated covers every non-empty fleet. A fleet registered with negative
  seat counts can have no vehicle with enough seats, even for a people count of zero:
  nothing is assigned. With such a fleet the first fit can share its id with an earlier
  vehicle, which is then the one overwritten. And when seats minus people passes the
  largest \<^verbatim>\<open>int\<close> the result wraps to a smaller seat count.
\<close>

theorem C10_counterexample:
  "AssignVehicleToGroup \<lparr>vehicles = [car 1 (- 5)]\<rparr> (party 7 0) =
     (\<lparr>vehicles = [car 1 (- 5)]\<rparr>, 0, False) \<and>
   AssignVehicleToGroup \<lparr>vehicles = [car 1 (- 9), car 1 5]\<rparr> (party 7 (- 1)) =
     (\<lparr>vehicles = [car 1 6, car 1 5]\<rparr>, 1, True) \<and>
   AssignVehicleToGroup \<lparr>vehicles = [car 3 9223372036854775806]\<rparr> (party 7 (- 2)) =
     (\<lparr>vehicles = [car 3 (- 9223372036854775808)]\<rparr>, 3, True) \<and>
   (- 9223372036854775808 :: go_int) <s 9223372036854775806"
  by (simp add: service_defs word_sless_alt)

section \<open>A journey request without a fitting vehicle\<close>

text \<open>
  Claim C5, as amended. When no vehicle of the fleet has at least as many remaining seats
  as the group has people, the journey request is answered "Added to waitlist", the
  group is appended to the waiting queue and \<^verbatim>\<open>FindGroup\<close> finds its id there (the group
  itself, unless an earlier waiting group carries the same id), the fleet is unchanged,
  and the assignment table is unchanged: the id is absent from the table afterwards
  exactly when it was absent before.
\<close>

theorem C5_no_fit_queues:
  assumes "\<forall>v\<in>set (vehicles (vehicleRepo s)). \<not> People grp \<le>s Seats v"
  shows "snd (journey s grp) = AddedToWaitlist \<and>
         groupsQueue (groupRepo (fst (journey s grp))) = groupsQueue (groupRepo s) @ [grp] \<and>
         snd (FindGroup (groupRepo (fst (journey s grp))) (Group.ID grp)) \<and>
         (\<not> waiting s (Group.ID grp) \<longrightarrow>
            fst (FindGroup (groupRepo (fst (journey s grp))) (Group.ID grp)) = grp) \<and>
         groupToCar (groupRepo (fst (journey s grp))) = groupToCar (groupRepo s) \<and>
         (\<not> riding s (Group.ID grp) \<longrightarrow>
            snd (locate (fst (journey s grp)) (Group.ID grp)) = NoContent) \<and>
         vehicleRepo (fst (journey s grp)) = vehicleRepo s"
proof -
  have a: "AssignVehicleToGroup (vehicleRepo s) grp = (vehicleRepo s, 0, False)"
    using assms by (simp add: AssignVehicleToGroup_def GetAllVehicles_def assign_loop_no_fit)
  have j: "journey s grp = (s\<lparr>groupRepo := AddGroup (groupRepo s) grp\<rparr>, AddedToWaitlist)"
    by (simp add: journey_def a)
  have f: "find_loop (q @ [grp]) (Group.ID grp) =
             (if Group.ID grp \<in> Group.ID ` set q then find_loop q (Group.ID grp) else (grp, True))" for q
    by (induction q) auto
  show ?thesis
    by (simp add: j AddGroup_def FindGroup_def f find_loop_found waiting_def riding_def locate_def)
qed

theorem C5_no_fit_queues_witness:
  "vehicles (vehicleRepo (run initial [PutEvs [car 1 4, car 2 6]])) = [car 1 4, car 2 6] \<and>
   \<not> People (party 9 7) \<le>s Seats (car 1 4) \<and>
   \<not> People (party 9 7) \<le>s Seats (car 2 6) \<and>
   snd (journey (run initial [PutEvs [car 1 4, car 2 6]]) (party 9 7)) = AddedToWaitlist \<and>
   fst (FindGroup (groupRepo (fst (journey (run initial [PutEvs [car 1 4, car 2 6]])
     (party 9 7)))) 9) = party 9 7 \<and>
   snd (locate (fst (journey (run initial [PutEvs [car 1 4, car 2 6]]) (party 9 7))) 9) =
     NoContent"
proof -
  have v: "vehicles (vehicleRepo (run initial [PutEvs [car 1 4, car 2 6]])) = [car 1 4, car 2 6]"
    by (simp add: service_defs)
  have n: "\<not> People (party 9 7) \<le>s Seats (car 1 4)" "\<not> People (party 9 7) \<le>s Seats (car 2 6)"
    by (simp_all add: service_defs)
  have h: "\<forall>v\<in>set (vehicles (vehicleRepo (run initial [PutEvs [car 1 4, car 2 6]]))).
             \<not> People (party 9 7) \<le>s Seats v"
    unfolding v using n by simp
  have w: "\<not> waiting (run initial [PutEvs [car 1 4, car 2 6]]) (Group.ID (party 9 7))"
    and r: "\<not> riding (run initial [PutEvs [car 1 4, car 2 6]]) (Group.ID (party 9 7))"
    by (simp_all add: service_defs)
  have i: "Group.ID (party 9 7) = 9"
    by (simp add: party_def)
  from C5_no_fit_queues [OF h] v n w r i show ?thesis
    by simp
qed

text \<open>
  The claim as stated promises that the group is absent from the assignment table. The
  handler never looks at the table on this path: a request that reuses the id of a
  riding group is queued while the table still maps the id to the earlier car.
\<close>

theorem C5_counterexample:
  "vehicles (vehicleRepo (run initial [PutEvs [car 1 4], PostJourney (party 1 3)])) = [car 1 1] \<and>
   \<not> People (party 1 5) \<le>s Seats (car 1 1) \<and>
   snd (journey (run initial [PutEvs [car 1 4], PostJourney (party 1 3)]) (party 1 5)) = AddedToWaitlist \<and>
   groupToCar (groupRepo (fst (journey (run initial [PutEvs [car 1 4], PostJourney (party 1 3)]) (party 1 5)))) 1 = Some 1 \<and>
   snd (locate (fst (journey (run initial [PutEvs [car 1 4], PostJourney (party 1 3)]) (party 1 5))) 1) = CarId 1"
  by (simp add: service_defs)

section \<open>Drop-off\<close>

text \<open>
  Claim C2, evaluated on the code. The fleet is one vehicle with 4 seats; group 1 with 3
  people is assigned to it and leaves 1 seat. The drop-off of group 1 answers "Group
  dropped off" and removes the assignment (locating group 1 afterwards answers 204), but
  the vehicle ends with 0 seats instead of the 4 it had before the assignment: the
  handler asks \<^verbatim>\<open>FindGroup\<close> for the group, which searches the waiting queue only and
  returns the zero group for a riding one, and \<^verbatim>\<open>ReleaseVehicleSeats\<close> stores that people
  count of 0 as the vehicle's seat count.
\<close>

theorem C2_dropoff_zeroes_seats:
  "vehicles (vehicleRepo (run initial [PutEvs [car 1 4]])) = [car 1 4] \<and>
   vehicles (vehicleRepo (run initial [PutEvs [car 1 4], PostJourney (party 1 3)])) = [car 1 1] \<and>
   snd (handle (run initial [PutEvs [car 1 4], PostJourney (party 1 3)]) (PostDropoff 1)) =
     GroupDroppedOff \<and>
   vehicles (vehicleRepo (run initial [PutEvs [car 1 4], PostJourney (party 1 3), PostDropoff 1])) =
     [car 1 0] \<and>
   snd (handle (run initial [PutEvs [car 1 4], PostJourney (party 1 3), PostDropoff 1])
     (PostLocate 1)) = NoContent"
  by (simp add: service_defs)

text \<open>
  Claim C7. For a group id without an entry in the assignment table, the drop-off
  answers "Group not found" and returns the state it was given: fleet, waiting queue
  and assignment table are the same.
\<close>

theorem C7_dropoff_unassigned:
  "groupToCar (groupRepo s) requestID = None \<Longrightarrow> dropoff s requestID = (s, GroupNotFound)"
  by (simp add: dropoff_def)

theorem C7_dropoff_unassigned_witness:
  "groupToCar (groupRepo (run initial [PutEvs [car 1 4], PostJourney (party 2 5)])) 2 = None \<and>
   dropoff (run initial [PutEvs [car 1 4], PostJourney (party 2 5)]) 2 =
     (run initial [PutEvs [car 1 4], PostJourney (party 2 5)], GroupNotFound)"
  using C7_dropoff_unassigned [of "run initial [PutEvs [car 1 4], PostJourney (party 2 5)]" 2]
  by (simp add: service_defs)





section \<open>Removing a group from the ledger\<close>

text \<open>
  Claim C9, as amended. \<^verbatim>\<open>RemoveGroup\<close> returns whether a group of the waiting queue
  carries the id. If one does, the first such group is taken out of the queue and the
  assignment table is unchanged. If none does, the queue is unchanged and the entry of
  the id is deleted from the assignment table (the other entries stay).
\<close>

theorem C9_RemoveGroup:
  "RemoveGroup repo groupID =
     (if groupID \<in> Group.ID ` set (groupsQueue repo)
      then (repo\<lparr>groupsQueue :=
                   takeWhile (\<lambda>g. Group.ID g \<noteq> groupID) (groupsQueue repo) @
                   tl (dropWhile (\<lambda>g. Group.ID g \<noteq> groupID) (groupsQueue repo))\<rparr>, True)
      else (repo\<lparr>groupToCar := (groupToCar repo)(groupID := None)\<rparr>, False))"
proof (cases "groupID \<in> Group.ID ` set (groupsQueue repo)")
  case True
  then show ?thesis
    by (simp add: RemoveGroup_def remove_first_Some)
next
  case False
  then have "remove_first (groupsQueue repo) groupID = None"
    by (simp add: remove_first_None)
  with False show ?thesis
    by (simp add: RemoveGroup_def)
qed

theorem C9_RemoveGroup_witness:
  "RemoveGroup \<lparr>groupsQueue = [party 1 2, party 2 3, party 1 4], groupToCar = [5 \<mapsto> 6]\<rparr> 1 =
     (\<lparr>groupsQueue = [party 2 3, party 1 4], groupToCar = [5 \<mapsto> 6]\<rparr>, True) \<and>
   fst (RemoveGroup \<lparr>groupsQueue = [party 1 2], groupToCar = [5 \<mapsto> 6]\<rparr> 5) =
     \<lparr>groupsQueue = [party 1 2], groupToCar = Map.empty\<rparr>"
  using C9_RemoveGroup [of "\<lparr>groupsQueue = [party 1 2, party 2 3, party 1 4], groupToCar = [5 \<mapsto> 6]\<rparr>" 1]
    C9_RemoveGroup [of "\<lparr>groupsQueue = [party 1 2], groupToCar = [5 \<mapsto> 6]\<rparr>" 5]
  by (simp add: party_def)

text \<open>
  The claim as stated leaves the assignment table unchanged in all cases. On the path
  that finds nothing in the queue the method runs \<^verbatim>\<open>delete(repo.groupToCar, groupID)\<close>:
  the entry of group 5 is gone afterwards.
\<close>

theorem C9_counterexample:
  "groupToCar \<lparr>groupsQueue = [party 1 2], groupToCar = [5 \<mapsto> 6]\<rparr> 5 = Some 6 \<and>
   groupToCar (fst (RemoveGroup \<lparr>groupsQueue = [party 1 2], groupToCar = [5 \<mapsto> 6]\<rparr> 5)) 5 = None \<and>
   snd (RemoveGroup \<lparr>groupsQueue = [party 1 2], groupToCar = [5 \<mapsto> 6]\<rparr> 5) = False"
  by (simp add: service_defs)

section \<open>Invariants of runs\<close>




text \<open>
  Claim C3, as amended. Start from the empty state and serve any requests such that
  every registered fleet has pairwise distinct vehicle ids and no negative seat count,
  no journey request has a negative people count, and every journey request carries a
  group id that is not active when it arrives. Then in the state reached the fleet
  matches its last registration vehicle by vehicle: the same id, and a remaining seat
  count that is not negative and not above the registered one.
\<close>

theorem C3_seats_within_capacity:
  assumes "fresh_ids initial rs" and "list_all valid_payload rs"
  shows "list_all2 within_capacity (vehicles (vehicleRepo (run initial rs))) (registered [] rs)"
proof -
  have "list_all2 within_capacity (vehicles (vehicleRepo initial)) []"
    and "distinct (map Vehicle.ID (vehicles (vehicleRepo initial)))"
    and "\<forall>g. \<not> (waiting initial g \<and> riding initial g)"
    by (simp_all add: initial_def waiting_def)
  from run_within [OF this assms] show ?thesis .
qed

theorem C3_seats_within_capacity_witness:
  "fresh_ids initial [PutEvs [car 1 4, car 2 6], PostJourney (party 1 3), PostJourney (party 2 6),
     PostJourney (party 3 2), PostDropoff 1, PostLocate 3] \<and>
   list_all valid_payload [PutEvs [car 1 4, car 2 6], PostJourney (party 1 3),
     PostJourney (party 2 6), PostJourney (party 3 2), PostDropoff 1, PostLocate 3] \<and>
   registered [] [PutEvs [car 1 4, car 2 6], PostJourney (party 1 3), PostJourney (party 2 6),
     PostJourney (party 3 2), PostDropoff 1, PostLocate 3] = [car 1 4, car 2 6] \<and>
   list_all2 within_capacity
     (vehicles (vehicleRepo (run initial [PutEvs [car 1 4, car 2 6], PostJourney (party 1 3),
        PostJourney (party 2 6), PostJourney (party 3 2), PostDropoff 1, PostLocate 3])))
     [car 1 4, car 2 6]"
proof -
  define rs where "rs = [PutEvs [car 1 4, car 2 6], PostJourney (party 1 3),
    PostJourney (party 2 6), PostJourney (party 3 2), PostDropoff 1, PostLocate 3]"
  have f: "fresh_ids initial rs"
    and v: "list_all valid_payload rs"
    and c: "registered [] rs = [car 1 4, car 2 6]"
    by (simp_all add: rs_def service_defs)
  from C3_seats_within_capacity [OF f v] f v c show ?thesis
    unfolding rs_def by simp
qed

text \<open>
  The claim as stated covers every reachable state, and the handlers check none of the
  conditions above. Each of them is needed: a group of \<open>-3\<close> people raises a vehicle of
  4 seats to 7; a vehicle registered with \<open>-2\<close> seats has a negative count; a group
  id used twice, first waiting with 10 people and then riding, makes the drop-off store
  10 seats in a vehicle of 4; and with two vehicles of id 1 the assignment of the second
  overwrites the first, of capacity 1, with 2 seats.
\<close>

theorem C3_counterexample:
  "vehicles (vehicleRepo (run initial [PutEvs [car 1 4], PostJourney (party 1 (- 3))])) =
     [car 1 7] \<and>
   vehicles (vehicleRepo (run initial [PutEvs [car 1 (- 2)]])) = [car 1 (- 2)] \<and>
   vehicles (vehicleRepo (run initial [PutEvs [car 1 4], PostJourney (party 1 10),
     PostJourney (party 1 2), PostDropoff 1])) = [car 1 10] \<and>
   vehicles (vehicleRepo (run initial [PutEvs [car 1 1, car 1 5], PostJourney (party 1 3)])) =
     [car 1 2, car 1 5] \<and>
   \<not> within_capacity (car 1 7) (car 1 4) \<and>
   \<not> within_capacity (car 1 (- 2)) (car 1 (- 2)) \<and>
   \<not> within_capacity (car 1 10) (car 1 4) \<and>
   \<not> within_capacity (car 1 2) (car 1 1)"
  by (simp add: service_defs)

end
